theory Spec2Isabelle
  imports Complex_Main "HOL-Library.Word"
begin

section \<open>Numbers and errors\<close>

text \<open>
  The tracker computes with numpy float64 arrays. Rounding is not modelled: a finite
  float is a real number. What is modelled is which operations leave the finite
  values, because numpy does not raise there: \<open>0 / 0\<close> is nan, \<open>x / 0\<close> is an
  infinity, nan spreads through every operation and every comparison with nan is
  false. Signed zeros are not modelled (a zero divisor counts as \<open>+0\<close>).
\<close>

datatype npfloat = Fin real | PInf | NInf | NaN

datatype error = ValueError | TypeError | IndexError | ZeroDivisionError

fun np_neg :: "npfloat \<Rightarrow> npfloat" where
  "np_neg (Fin a) = Fin (- a)"
| "np_neg PInf = NInf"
| "np_neg NInf = PInf"
| "np_neg NaN = NaN"

fun np_add :: "npfloat \<Rightarrow> npfloat \<Rightarrow> npfloat" where
  "np_add (Fin a) (Fin b) = Fin (a + b)"
| "np_add NaN y = NaN"
| "np_add x NaN = NaN"
| "np_add PInf NInf = NaN"
| "np_add NInf PInf = NaN"
| "np_add PInf y = PInf"
| "np_add x PInf = PInf"
| "np_add NInf y = NInf"
| "np_add x NInf = NInf"

definition np_sub :: "npfloat \<Rightarrow> npfloat \<Rightarrow> npfloat" where
  "np_sub x y = np_add x (np_neg y)"

text \<open>The sign of a product or quotient with an infinite operand; a zero finite
  operand against an infinity gives nan.\<close>

fun inf_signed :: "real \<Rightarrow> npfloat" where
  "inf_signed s = (if s = 0 then NaN else if 0 < s then PInf else NInf)"

fun np_mul :: "npfloat \<Rightarrow> npfloat \<Rightarrow> npfloat" where
  "np_mul (Fin a) (Fin b) = Fin (a * b)"
| "np_mul NaN y = NaN"
| "np_mul x NaN = NaN"
| "np_mul (Fin a) PInf = inf_signed a"
| "np_mul (Fin a) NInf = inf_signed (- a)"
| "np_mul PInf (Fin b) = inf_signed b"
| "np_mul NInf (Fin b) = inf_signed (- b)"
| "np_mul PInf PInf = PInf"
| "np_mul NInf NInf = PInf"
| "np_mul PInf NInf = NInf"
| "np_mul NInf PInf = NInf"

fun np_div :: "npfloat \<Rightarrow> npfloat \<Rightarrow> npfloat" where
  "np_div (Fin a) (Fin b) = (if b = 0 then inf_signed a else Fin (a / b))"
| "np_div NaN y = NaN"
| "np_div x NaN = NaN"
| "np_div (Fin a) PInf = Fin 0"
| "np_div (Fin a) NInf = Fin 0"
| "np_div PInf (Fin b) = (if 0 \<le> b then PInf else NInf)"
| "np_div NInf (Fin b) = (if 0 \<le> b then NInf else PInf)"
| "np_div PInf PInf = NaN"
| "np_div PInf NInf = NaN"
| "np_div NInf PInf = NaN"
| "np_div NInf NInf = NaN"

fun np_sqrt :: "npfloat \<Rightarrow> npfloat" where
  "np_sqrt (Fin a) = (if a < 0 then NaN else Fin (sqrt a))"
| "np_sqrt PInf = PInf"
| "np_sqrt NInf = NaN"
| "np_sqrt NaN = NaN"

text \<open>\<open>x <= y\<close> on floats: false as soon as one side is nan.\<close>

fun np_le :: "npfloat \<Rightarrow> npfloat \<Rightarrow> bool" where
  "np_le (Fin a) (Fin b) = (a \<le> b)"
| "np_le NaN y = False"
| "np_le x NaN = False"
| "np_le NInf y = True"
| "np_le x PInf = True"
| "np_le PInf y = False"
| "np_le x NInf = False"

fun np_sum :: "npfloat list \<Rightarrow> npfloat" where
  "np_sum [] = Fin 0"
| "np_sum (x # xs) = np_add x (np_sum xs)"

section \<open>The circle-detection tracker\<close>

text \<open>
  \<open>track_ball_hough\<close>, up to the update of the ball centre (the rest of the method
  draws). The detector's answer is an input: \<open>None\<close>, or the list of circles
  \<open>(x, y, radius)\<close> of \<open>circles[0, :]\<close>. The trajectory buffers are the three arrays
  allocated by the constructor, one entry per frame.
\<close>

record hough_state =
  frame_count :: int
  ball_center :: "(real \<times> real) list"
  ball_radius :: "real list"
  ball_center_vel :: "(npfloat \<times> npfloat) list"

definition PINGPONG_DIAMETER_CM :: real where
  "PINGPONG_DIAMETER_CM = 4"

text \<open>The loop over the circles. \<open>min_distance\<close> is a local of the method that the
  loop reads and never assigns, so it is a parameter here.\<close>

fun circle_loop ::
  "real \<Rightarrow> real \<Rightarrow> nat \<Rightarrow> (real \<times> real \<times> real) list \<Rightarrow> (real \<times> real) \<times> real list
   \<Rightarrow> error + ((real \<times> real) \<times> real list)" where
  "circle_loop min_distance target_radius fc [] acc = Inr acc"
| "circle_loop min_distance target_radius fc ((cx, cy, cr) # cs) (new_pos, radii) =
     (if min_distance < 0 \<or> \<bar>cr - target_radius\<bar> < min_distance
      then (if fc < length radii
            then circle_loop min_distance target_radius fc cs ((cx, cy), radii[fc := cr])
            else Inl IndexError)
      else circle_loop min_distance target_radius fc cs (new_pos, radii))"

text \<open>The velocity of one coordinate: \<open>(new - old) / dt * cm_per_pixel\<close>, where
  \<open>cm_per_pixel\<close> is still \<open>None\<close> when the radius was not positive, and a float
  times \<open>None\<close> is a TypeError.\<close>

definition velocity :: "real \<Rightarrow> real \<Rightarrow> real \<Rightarrow> real option \<Rightarrow> error + npfloat" where
  "velocity new old dt cm_per_pixel =
     (case cm_per_pixel of
        None \<Rightarrow> Inl TypeError
      | Some c \<Rightarrow> Inr (np_mul (np_div (Fin (new - old)) (Fin dt)) (Fin c)))"

definition track_ball_hough ::
  "hough_state \<Rightarrow> (real \<times> real \<times> real) list option \<Rightarrow> real \<Rightarrow> real \<Rightarrow> error + hough_state" where
  "track_ball_hough s0 circles target_radius dt =
     (let s = s0\<lparr>frame_count := frame_count s0 + 1\<rparr>;
          fc = nat (frame_count s);
          min_distance = - 1
      in case circles of
           None \<Rightarrow> Inr s
         | Some cs \<Rightarrow>
             (if frame_count s \<le> 0 then
                (case circle_loop min_distance target_radius fc cs ((0, 0), ball_radius s) of
                   Inl e \<Rightarrow> Inl e
                 | Inr (new_pos, radii) \<Rightarrow>
                     (if fc < length (ball_center s)
                      then Inr (s\<lparr>ball_radius := radii,
                                 ball_center := (ball_center s)[fc := new_pos]\<rparr>)
                      else Inl IndexError))
              else if fc - 1 < length (ball_center s) then
                (let old = ball_center s ! (fc - 1)
                 in case circle_loop min_distance target_radius fc cs (old, ball_radius s) of
                      Inl e \<Rightarrow> Inl e
                    | Inr (new_pos, radii) \<Rightarrow>
                        (if fc < length radii then
                           (let cm_per_pixel =
                                  (if 0 < radii ! fc
                                   then Some (PINGPONG_DIAMETER_CM / (2 * (radii ! fc)))
                                   else None)
                            in case velocity (fst new_pos) (fst old) dt cm_per_pixel of
                                 Inl e \<Rightarrow> Inl e
                               | Inr vx \<Rightarrow>
                                   (case velocity (snd new_pos) (snd old) dt cm_per_pixel of
                                      Inl e \<Rightarrow> Inl e
                                    | Inr vy \<Rightarrow>
                                        (if fc < length (ball_center_vel s) \<and> fc < length (ball_center s)
                                         then Inr (s\<lparr>ball_radius := radii,
                                                    ball_center_vel := (ball_center_vel s)[fc := (vx, vy)],
                                                    ball_center := (ball_center s)[fc := new_pos]\<rparr>)
                                         else Inl IndexError)))
                         else Inl IndexError))
              else Inl IndexError))"

text \<open>The radii the detector is asked for: the method calls \<open>cv2.HoughCircles\<close> with
  \<open>minRadius = target_radius - radius_variation\<close> and
  \<open>maxRadius = target_radius + radius_variation\<close>, where \<open>radius_variation = 5\<close>. OpenCV
  reads a negative \<open>minRadius\<close> as 0, and for a negative \<open>maxRadius\<close> it returns the
  centres without searching for a radius, every radius being 0.\<close>

definition radius_variation :: real where
  "radius_variation = 5"

definition radius_in_window :: "real \<Rightarrow> real \<times> real \<times> real \<Rightarrow> bool" where
  "radius_in_window target_radius circle =
     (case circle of (cx, cy, cr) \<Rightarrow>
        if target_radius + radius_variation < 0 then cr = 0
        else max 0 (target_radius - radius_variation) \<le> cr \<and> cr \<le> target_radius + radius_variation)"

text \<open>The tracker as the constructor leaves it, for \<open>n\<close> frames to process.\<close>

definition hough_init :: "nat \<Rightarrow> hough_state" where
  "hough_init n =
     \<lparr>frame_count = - 1,
      ball_center = replicate n (0, 0),
      ball_radius = replicate n 0,
      ball_center_vel = replicate n (Fin 0, Fin 0)\<rparr>"

section \<open>The Hellinger distance\<close>

text \<open>
  A histogram is a one-dimensional array of \<open>B\<close> bin counts. The array
  \<open>particle_histograms\<close> of shape \<open>(B, N)\<close> is the list of its \<open>N\<close> columns, one
  histogram per particle; \<open>sum(axis=0)\<close> is then the sum of each column.
\<close>

text \<open>\<open>h / h.sum(axis=0)\<close> for one column.\<close>

definition normalize_hist :: "npfloat list \<Rightarrow> npfloat list" where
  "normalize_hist h = map (\<lambda>x. np_div x (np_sum h)) h"

text \<open>The product of two columns of shapes \<open>(B, 1)\<close> and \<open>(B', 1)\<close> under numpy's
  broadcasting: elementwise for equal lengths, a column of one entry is stretched,
  anything else is a ValueError.\<close>

definition broadcast_mul :: "npfloat list \<Rightarrow> npfloat list \<Rightarrow> error + npfloat list" where
  "broadcast_mul a b =
     (if length a = length b then Inr (map2 np_mul a b)
      else if length a = 1 then Inr (map (np_mul (a ! 0)) b)
      else if length b = 1 then Inr (map (\<lambda>x. np_mul x (b ! 0)) a)
      else Inl ValueError)"

text \<open>\<open>sqrt(1 - sqrt(h_measured_n * h_target_n).sum(axis=0))\<close> for one measured column.\<close>

definition hellinger_column :: "npfloat list \<Rightarrow> npfloat list \<Rightarrow> error + npfloat" where
  "hellinger_column h_measured h_target =
     (case broadcast_mul (normalize_hist h_measured) (normalize_hist h_target) of
        Inl e \<Rightarrow> Inl e
      | Inr p \<Rightarrow> Inr (np_sqrt (np_sub (Fin 1) (np_sum (map np_sqrt p)))))"

text \<open>Applying a fallible function to every column: the first error is the result.\<close>

fun map_columns :: "('a \<Rightarrow> error + 'b) \<Rightarrow> 'a list \<Rightarrow> error + 'b list" where
  "map_columns f [] = Inr []"
| "map_columns f (x # xs) =
     (case f x of
        Inl e \<Rightarrow> Inl e
      | Inr y \<Rightarrow> (case map_columns f xs of Inl e \<Rightarrow> Inl e | Inr ys \<Rightarrow> Inr (y # ys)))"

text \<open>\<open>compute_hellinger_distance\<close>: one distance per column of \<open>h_measured\<close>. A
  one-dimensional \<open>h_measured\<close> is reshaped by the method to a single column, and its
  result has shape \<open>(1,)\<close>: it is the case of a one-column list here.\<close>

definition compute_hellinger_distance :: "npfloat list list \<Rightarrow> npfloat list \<Rightarrow> error + npfloat list" where
  "compute_hellinger_distance h_measured h_target =
     map_columns (\<lambda>h. hellinger_column h h_target) h_measured"

section \<open>Arrays\<close>

text \<open>
  A two-dimensional array is the list of its rows, except \<open>particle_histograms\<close> (see
  above). \<open>current_state\<close> has shape \<open>(4, N)\<close>: row \<open>j\<close> holds component \<open>j\<close> of every
  particle (x, y, vx, vy) and column \<open>i\<close> is the state of particle \<open>i\<close>. The states,
  \<open>dt\<close> and the random draws are finite floats, hence reals: they are only added and
  multiplied.
\<close>

definition ncols :: "'a list list \<Rightarrow> nat" where
  "ncols m = (case m of [] \<Rightarrow> 0 | r # _ \<Rightarrow> length r)"

definition is_matrix :: "nat \<Rightarrow> nat \<Rightarrow> 'a list list \<Rightarrow> bool" where
  "is_matrix r c m = (length m = r \<and> list_all (\<lambda>row. length row = c) m)"

text \<open>\<open>m[:, j]\<close>, read and written.\<close>

definition column :: "'a list list \<Rightarrow> nat \<Rightarrow> 'a list" where
  "column m j = map (\<lambda>r. r ! j) m"

definition get_column :: "'a list list \<Rightarrow> nat \<Rightarrow> error + 'a list" where
  "get_column m j = (if j < ncols m then Inr (column m j) else Inl IndexError)"

definition set_column :: "'a list list \<Rightarrow> nat \<Rightarrow> 'a list \<Rightarrow> error + 'a list list" where
  "set_column m i c =
     (if i < ncols m
      then (if length c = length m then Inr (map2 (\<lambda>r v. r[i := v]) m c) else Inl ValueError)
      else Inl IndexError)"

definition identity :: "nat \<Rightarrow> real list list" where
  "identity n = map (\<lambda>i. map (\<lambda>j. if i = j then 1 else 0) [0..<n]) [0..<n]"

definition np_diag :: "real list \<Rightarrow> real list list" where
  "np_diag d = map (\<lambda>i. map (\<lambda>j. if i = j then d ! i else 0) [0..<length d]) [0..<length d]"

text \<open>\<open>m[i, j] = v\<close>, for an index inside the array.\<close>

definition set_entry :: "real list list \<Rightarrow> nat \<Rightarrow> nat \<Rightarrow> real \<Rightarrow> real list list" where
  "set_entry m i j v = m[i := (m ! i)[j := v]]"

text \<open>\<open>np.dot\<close> of two matrices: the inner dimensions must agree.\<close>

definition np_dot :: "real list list \<Rightarrow> real list list \<Rightarrow> error + real list list" where
  "np_dot a b =
     (if ncols a = length b
      then Inr (map (\<lambda>row. map (\<lambda>j. sum_list (map2 (*) row (column b j))) [0..<ncols b]) a)
      else Inl ValueError)"

text \<open>The sum of two rows, broadcast as numpy does.\<close>

definition broadcast_add :: "real list \<Rightarrow> real list \<Rightarrow> error + real list" where
  "broadcast_add a b =
     (if length a = length b then Inr (map2 (+) a b)
      else if length a = 1 then Inr (map ((+) (a ! 0)) b)
      else if length b = 1 then Inr (map (\<lambda>x. x + b ! 0) a)
      else Inl ValueError)"

text \<open>The sum of two arrays with the same number of rows.\<close>

definition mat_add :: "real list list \<Rightarrow> real list list \<Rightarrow> error + real list list" where
  "mat_add a b =
     (if length a = length b
      then map_columns (\<lambda>(r, r'). broadcast_add r r') (zip a b)
      else Inl ValueError)"

section \<open>Propagation\<close>

text \<open>\<open>np.random.normal(size=(rows, n))\<close>: the draws are an input, \<open>z j i\<close> for row \<open>j\<close>
  and particle \<open>i\<close>.\<close>

definition normal_draws :: "(nat \<Rightarrow> nat \<Rightarrow> real) \<Rightarrow> nat \<Rightarrow> nat \<Rightarrow> real list list" where
  "normal_draws z rows n = map (\<lambda>j. map (\<lambda>i. z j i) [0..<n]) [0..<rows]"

text \<open>\<open>compute_process_noise_variance\<close>.\<close>

definition V_process_noise :: "real \<Rightarrow> real \<Rightarrow> real list list" where
  "V_process_noise process_noise_pos_sigma process_noise_vel_sigma =
     np_diag [process_noise_pos_sigma, process_noise_pos_sigma,
              process_noise_vel_sigma, process_noise_vel_sigma]"

text \<open>\<open>propagate_particles\<close>, with \<open>n_states\<close> at its value 4 (the constructor's default,
  which \<open>main\<close> never changes, and the size of \<open>V_process_noise\<close>).\<close>

definition propagate_particles ::
  "real \<Rightarrow> real \<Rightarrow> nat \<Rightarrow> real \<Rightarrow> (nat \<Rightarrow> nat \<Rightarrow> real) \<Rightarrow> real list list \<Rightarrow> error + real list list" where
  "propagate_particles process_noise_pos_sigma process_noise_vel_sigma n_particles dt z current_state =
     (let A = set_entry (set_entry (identity 4) 0 2 dt) 1 3 dt
      in case np_dot A current_state of
           Inl e \<Rightarrow> Inl e
         | Inr ax \<Rightarrow>
             (case np_dot (V_process_noise process_noise_pos_sigma process_noise_vel_sigma)
                     (normal_draws z 4 n_particles) of
                Inl e \<Rightarrow> Inl e
              | Inr vz \<Rightarrow> mat_add ax vz))"

section \<open>Cropping and histograms\<close>

text \<open>A grayscale frame is an array of bytes, the list of its rows.\<close>

type_synonym image = "8 word list list"

text \<open>\<open>int(x)\<close> on a float: truncation towards zero.\<close>

definition py_int :: "real \<Rightarrow> int" where
  "py_int x = (if 0 \<le> x then \<lfloor>x\<rfloor> else \<lceil>x\<rceil>)"

text \<open>A bound of a slice over \<open>n\<close> elements: a negative bound counts from the end, and
  the result is clamped to \<open>0..n\<close>.\<close>

definition slice_index :: "nat \<Rightarrow> int \<Rightarrow> nat" where
  "slice_index n k = (if k < 0 then nat (max 0 (k + int n)) else min (nat k) n)"

text \<open>\<open>xs[start:stop]\<close>.\<close>

definition py_slice :: "'a list \<Rightarrow> int \<Rightarrow> int \<Rightarrow> 'a list" where
  "py_slice xs start stop =
     (let a = slice_index (length xs) start; b = slice_index (length xs) stop
      in take (b - a) (drop a xs))"

text \<open>The box of a particle at \<open>(x, y)\<close>, as \<open>update_particles_histograms\<close> stores it in
  \<open>particle_boxes[:, i]\<close>; \<open>height\<close> and \<open>width\<close> are the integers of \<open>target_ROI\<close>.\<close>

definition particle_box :: "int \<Rightarrow> int \<Rightarrow> real \<Rightarrow> real \<Rightarrow> real \<times> real \<times> real \<times> real" where
  "particle_box height width x y =
     (x - real_of_int height / 2, y - real_of_int width / 2,
      x + real_of_int height / 2, y + real_of_int width / 2)"

text \<open>\<open>image_grayscale[int(b1):int(b3), int(b0):int(b2)]\<close>.\<close>

fun crop_box :: "image \<Rightarrow> real \<times> real \<times> real \<times> real \<Rightarrow> image" where
  "crop_box img (b0, b1, b2, b3) =
     map (\<lambda>row. py_slice row (py_int b0) (py_int b2)) (py_slice img (py_int b1) (py_int b3))"

text \<open>The bin of a byte among \<open>bins\<close> equal bins over the range \<open>(0, 256)\<close>.\<close>

definition bin_of :: "nat \<Rightarrow> 8 word \<Rightarrow> nat" where
  "bin_of bins v = unat v * bins div 256"

text \<open>\<open>np.histogram(data, bins=bins, range=(0, 256))\<close>: the counts. A bin count that is
  not positive is a ValueError.\<close>

definition np_histogram :: "8 word list \<Rightarrow> nat \<Rightarrow> error + nat list" where
  "np_histogram data bins =
     (if bins = 0 then Inl ValueError
      else Inr (map (\<lambda>k. length (filter (\<lambda>v. bin_of bins v = k) data)) [0..<bins]))"

text \<open>The histogram of one particle: the crop, flattened by \<open>ravel\<close>, counted, and
  stored as floats.\<close>

definition particle_histogram :: "image \<Rightarrow> nat \<Rightarrow> int \<Rightarrow> int \<Rightarrow> real \<Rightarrow> real \<Rightarrow> error + npfloat list" where
  "particle_histogram img n_bins height width x y =
     (case np_histogram (concat (crop_box img (particle_box height width x y))) n_bins of
        Inl e \<Rightarrow> Inl e
      | Inr h \<Rightarrow> Inr (map (\<lambda>c. Fin (real c)) h))"

text \<open>\<open>update_particles_histograms\<close>: the loop over the particles, returning the new
  columns of \<open>particle_histograms\<close>.\<close>

definition update_particles_histograms ::
  "image \<Rightarrow> nat \<Rightarrow> int \<Rightarrow> int \<Rightarrow> nat \<Rightarrow> real list list \<Rightarrow> error + npfloat list list" where
  "update_particles_histograms img n_bins height width n_particles current_state =
     map_columns
       (\<lambda>i. if 1 < length current_state \<and> i < ncols current_state
            then particle_histogram img n_bins height width
                   (current_state ! 0 ! i) (current_state ! 1 ! i)
            else Inl IndexError)
       [0..<n_particles]"

text \<open>The intersection of the box \<open>[x0, x1) \<times> [y0, y1)\<close> with the frame, for comparison
  with the crop.\<close>

definition box_intersection :: "image \<Rightarrow> int \<Rightarrow> int \<Rightarrow> int \<Rightarrow> int \<Rightarrow> image" where
  "box_intersection img x0 y0 x1 y1 =
     map (\<lambda>r. map (\<lambda>c. img ! r ! c) [nat (max 0 x0)..<nat (min (int (ncols img)) x1)])
       [nat (max 0 y0)..<nat (min (int (length img)) y1)]"

section \<open>Weights\<close>

text \<open>\<open>norm.pdf(x, 0, scale)\<close>: scipy answers nan for a scale that is not positive.\<close>

definition norm_pdf :: "npfloat \<Rightarrow> real \<Rightarrow> npfloat" where
  "norm_pdf x scale =
     (if scale \<le> 0 then NaN
      else case x of
             Fin a \<Rightarrow> Fin (exp (- (a / scale)\<^sup>2 / 2) / sqrt (2 * pi) / scale)
           | PInf \<Rightarrow> Fin 0
           | NInf \<Rightarrow> Fin 0
           | NaN \<Rightarrow> NaN)"

text \<open>\<open>compute_particle_betas\<close>. The scale \<open>1 / measurement_noise_sigma\<close> is a Python
  division, which raises for a zero divisor.\<close>

definition compute_particle_betas :: "npfloat list list \<Rightarrow> npfloat list \<Rightarrow> real \<Rightarrow> error + npfloat list" where
  "compute_particle_betas particle_histograms target_values measurement_noise_sigma =
     (case compute_hellinger_distance particle_histograms target_values of
        Inl e \<Rightarrow> Inl e
      | Inr d_hellinger \<Rightarrow>
          (if measurement_noise_sigma = 0 then Inl ZeroDivisionError
           else
             let normal_density_values =
                   map (\<lambda>d. norm_pdf d (1 / measurement_noise_sigma)) d_hellinger
             in Inr (map (\<lambda>v. np_div v (np_sum normal_density_values)) normal_density_values)))"

section \<open>Resampling\<close>

fun cumsum_from :: "npfloat \<Rightarrow> npfloat list \<Rightarrow> npfloat list" where
  "cumsum_from acc [] = []"
| "cumsum_from acc (x # xs) = np_add acc x # cumsum_from (np_add acc x) xs"

definition np_cumsum :: "npfloat list \<Rightarrow> npfloat list" where
  "np_cumsum xs = cumsum_from (Fin 0) xs"

text \<open>\<open>res = (randuni <= beta_cumsum).nonzero()\<close> and
  \<open>index = res[0][0] if res[0].size > 0 else 0\<close>.\<close>

definition select_index :: "real \<Rightarrow> npfloat list \<Rightarrow> nat" where
  "select_index randuni beta_cumsum =
     (case filter (\<lambda>k. np_le (Fin randuni) (beta_cumsum ! k)) [0..<length beta_cumsum] of
        [] \<Rightarrow> 0
      | k # _ \<Rightarrow> k)"

text \<open>The loop of \<open>resample_particles\<close>; \<open>u i\<close> is the uniform draw of iteration \<open>i\<close>.\<close>

fun resample_loop ::
  "real list list \<Rightarrow> npfloat list \<Rightarrow> (nat \<Rightarrow> real) \<Rightarrow> nat list \<Rightarrow> real list list \<Rightarrow> error + real list list" where
  "resample_loop current_state_prior beta_cumsum u [] current_state = Inr current_state"
| "resample_loop current_state_prior beta_cumsum u (i # rest) current_state =
     (case get_column current_state_prior (select_index (u i) beta_cumsum) of
        Inl e \<Rightarrow> Inl e
      | Inr c \<Rightarrow>
          (case set_column current_state i c of
             Inl e \<Rightarrow> Inl e
           | Inr s \<Rightarrow> resample_loop current_state_prior beta_cumsum u rest s))"

definition resample_particles ::
  "nat \<Rightarrow> real list list \<Rightarrow> npfloat list \<Rightarrow> (nat \<Rightarrow> real) \<Rightarrow> error + real list list" where
  "resample_particles n_particles current_state particle_betas u =
     resample_loop current_state (np_cumsum particle_betas) u [0..<n_particles] current_state"

section \<open>The estimate\<close>

text \<open>\<open>mean\<close> of a row: the sum divided by the count, nan for an empty row.\<close>

definition np_mean :: "real list \<Rightarrow> npfloat" where
  "np_mean xs = np_div (Fin (sum_list xs)) (Fin (real (length xs)))"

text \<open>\<open>get_ROI\<close> stores under \<open>'height'\<close> the extent of the selected rectangle
  \<open>(x, y, w, h)\<close> along x and under \<open>'width'\<close> its extent along y.\<close>

fun roi_height :: "int \<times> int \<times> int \<times> int \<Rightarrow> int" where
  "roi_height (r0, r1, r2, r3) = (r0 + r2) - r0"

fun roi_width :: "int \<times> int \<times> int \<times> int \<Rightarrow> int" where
  "roi_width (r0, r1, r2, r3) = (r1 + r3) - r1"

text \<open>\<open>compute_MMSE_estimate\<close>: the estimate and its box.\<close>

definition compute_MMSE_estimate :: "int \<Rightarrow> int \<Rightarrow> real list list \<Rightarrow> error + (npfloat list \<times> npfloat list)" where
  "compute_MMSE_estimate height width current_state =
     (let mmse_estimate = map np_mean current_state
      in if 1 < length mmse_estimate
         then Inr (mmse_estimate,
                   [np_sub (mmse_estimate ! 0) (Fin (real_of_int height / 2)),
                    np_sub (mmse_estimate ! 1) (Fin (real_of_int width / 2)),
                    np_add (mmse_estimate ! 0) (Fin (real_of_int height / 2)),
                    np_add (mmse_estimate ! 1) (Fin (real_of_int width / 2))])
         else Inl IndexError)"

section \<open>Auxiliary notions for the proofs\<close>



text \<open>The intersection of a particle's box, at its truncated coordinates, with the
  frame.\<close>

fun clipped_crop :: "image \<Rightarrow> real \<times> real \<times> real \<times> real \<Rightarrow> image" where
  "clipped_crop img (b0, b1, b2, b3) =
     box_intersection img (py_int b0) (py_int b1) (py_int b2) (py_int b3)"


section \<open>Circle selection\<close>

lemma circle_loop_last:
  "min_distance < 0 \<Longrightarrow> fc < length radii \<Longrightarrow> cs \<noteq> [] \<Longrightarrow>
   circle_loop min_distance target_radius fc cs (new_pos, radii) =
     Inr ((fst (last cs), fst (snd (last cs))), radii[fc := snd (snd (last cs))])"
proof (induction cs arbitrary: new_pos radii)
  case Nil
  then show ?case by simp
next
  case (Cons c cs)
  obtain cx cy cr where c: "c = (cx, cy, cr)" by (cases c) auto
  show ?case
  proof (cases "cs = []")
    case True
    with Cons.prems c show ?thesis by simp
  next
    case False
    with Cons.prems c Cons.IH [of "radii[fc := cr]" "(cx, cy)"] show ?thesis by simp
  qed
qed

text \<open>
  Claim C9 (the candidate whose radius is closest to the expected radius is selected).
  On the first frame, with two candidates of radius 26 and 30 and an expected radius
  of 26, the method records the centre and the radius of the second one, the last of
  the list.
\<close>

theorem hough_selects_last_circle:
  "track_ball_hough (hough_init 2) (Some [(10, 10, 26), (50, 50, 30)]) 26 (1 / 25) =
     Inr \<lparr>frame_count = 0,
          ball_center = [(50, 50), (0, 0)],
          ball_radius = [30, 0],
          ball_center_vel = [(Fin 0, Fin 0), (Fin 0, Fin 0)]\<rparr>"
  by (simp add: track_ball_hough_def hough_init_def numeral_2_eq_2)

text \<open>
  Claim C10 (a zero measured radius is a missing measurement, not a fault). With an
  expected radius of 5 the detector is asked for the radii from 0 to 10. On the second
  frame a detected circle of radius 0, which lies in that window, leaves
  \<open>cm_per_pixel\<close> at \<open>None\<close>, and the velocity computation fails with a TypeError. The
  same happens with an expected radius of -6, for which the detector returns centres
  only, every radius being 0.
\<close>

theorem hough_zero_radius_type_error:
  "list_all (radius_in_window 5) [(12, 10, 0)]
   \<and> track_ball_hough
       \<lparr>frame_count = 0,
        ball_center = [(10, 10), (0, 0)],
        ball_radius = [5, 0],
        ball_center_vel = [(Fin 0, Fin 0), (Fin 0, Fin 0)]\<rparr>
       (Some [(12, 10, 0)]) 5 (1 / 25) = Inl TypeError
   \<and> list_all (radius_in_window (- 6)) [(12, 10, 0)]
   \<and> track_ball_hough
       \<lparr>frame_count = 0,
        ball_center = [(10, 10), (0, 0)],
        ball_radius = [0, 0],
        ball_center_vel = [(Fin 0, Fin 0), (Fin 0, Fin 0)]\<rparr>
       (Some [(12, 10, 0)]) (- 6) (1 / 25) = Inl TypeError"
  by (simp add: track_ball_hough_def velocity_def radius_in_window_def radius_variation_def)

section \<open>Properties of the Hellinger distance\<close>























section \<open>Properties of propagation\<close>

lemma upt_4: "[0..<4] = [0, 1, 2, 3]"
  by (simp add: upt_rec numeral_eq_Suc)

lemma A_matrix:
  "set_entry (set_entry (identity 4) 0 2 dt) 1 3 dt =
     [[1, 0, dt, 0], [0, 1, 0, dt], [0, 0, 1, 0], [0, 0, 0, 1]]"
  by (simp add: identity_def set_entry_def upt_4)

lemma V_matrix:
  "V_process_noise sp sv = [[sp, 0, 0, 0], [0, sp, 0, 0], [0, 0, sv, 0], [0, 0, 0, sv]]"
  by (simp add: V_process_noise_def np_diag_def upt_4)

lemma is_matrix_4:
  "is_matrix 4 n m \<longleftrightarrow>
     (\<exists>r0 r1 r2 r3. m = [r0, r1, r2, r3] \<and> length r0 = n \<and> length r1 = n \<and> length r2 = n \<and> length r3 = n)"
  by (auto simp: is_matrix_def length_Suc_conv numeral_eq_Suc)

text \<open>
  Claim C7. For a population of \<open>n\<close> particles and every \<open>dt\<close>, propagation returns a
  population of the same shape in which particle \<open>i\<close> has the state
  \<open>A(dt) * state + processNoiseScale * z\<close>: \<open>x + dt * vx + sigma_pos * z0\<close>,
  \<open>y + dt * vy + sigma_pos * z1\<close>, \<open>vx + sigma_vel * z2\<close>, \<open>vy + sigma_vel * z3\<close>, with the
  draws \<open>z\<close> of that particle; nothing is clamped.
\<close>

theorem propagate_closed_form:
  assumes "is_matrix 4 n state"
  shows "\<exists>s. propagate_particles sp sv n dt z state = Inr s \<and> is_matrix 4 n s \<and>
             (\<forall>i<n. column s i =
                [state ! 0 ! i + dt * state ! 2 ! i + sp * z 0 i,
                 state ! 1 ! i + dt * state ! 3 ! i + sp * z 1 i,
                 state ! 2 ! i + sv * z 2 i,
                 state ! 3 ! i + sv * z 3 i])"
proof -
  from assms obtain r0 r1 r2 r3 where
    m: "state = [r0, r1, r2, r3]" and
    l: "length r0 = n" "length r1 = n" "length r2 = n" "length r3 = n"
    unfolding is_matrix_4 by blast
  have ax: "np_dot [[1, 0, dt, 0], [0, 1, 0, dt], [0, 0, 1, 0], [0, 0, 0, 1]] state =
    Inr [map (\<lambda>j. r0 ! j + dt * r2 ! j) [0..<n], map (\<lambda>j. r1 ! j + dt * r3 ! j) [0..<n],
         map (\<lambda>j. r2 ! j) [0..<n], map (\<lambda>j. r3 ! j) [0..<n]]"
    by (simp add: np_dot_def ncols_def column_def m l)
  have vz: "np_dot [[sp, 0, 0, 0], [0, sp, 0, 0], [0, 0, sv, 0], [0, 0, 0, sv]] (normal_draws z 4 n) =
    Inr [map (\<lambda>j. sp * z 0 j) [0..<n], map (\<lambda>j. sp * z 1 j) [0..<n],
         map (\<lambda>j. sv * z 2 j) [0..<n], map (\<lambda>j. sv * z 3 j) [0..<n]]"
    by (simp add: np_dot_def ncols_def column_def normal_draws_def upt_4)
  let ?s = "[map (\<lambda>j. r0 ! j + dt * r2 ! j + sp * z 0 j) [0..<n],
             map (\<lambda>j. r1 ! j + dt * r3 ! j + sp * z 1 j) [0..<n],
             map (\<lambda>j. r2 ! j + sv * z 2 j) [0..<n],
             map (\<lambda>j. r3 ! j + sv * z 3 j) [0..<n]]"
  have m2: "\<And>f g. map2 (+) (map f [0..<n]) (map g [0..<n]) = map (\<lambda>j. f j + (g j :: real)) [0..<n]"
    by (simp add: zip_map_map zip_same_conv_map comp_def)
  have "propagate_particles sp sv n dt z state = Inr ?s"
    unfolding propagate_particles_def Let_def A_matrix V_matrix ax vz sum.case
    by (simp add: mat_add_def broadcast_add_def m2)
  moreover have "is_matrix 4 n ?s" by (simp add: is_matrix_def)
  moreover have "\<forall>i<n. column ?s i =
                [state ! 0 ! i + dt * state ! 2 ! i + sp * z 0 i,
                 state ! 1 ! i + dt * state ! 3 ! i + sp * z 1 i,
                 state ! 2 ! i + sv * z 2 i,
                 state ! 3 ! i + sv * z 3 i]"
    by (simp add: column_def m)
  ultimately show ?thesis by blast
qed


theorem propagate_closed_form_witness:
  "\<exists>s. propagate_particles 1 1 1 2 (\<lambda>j i. real j) [[1], [2], [3], [4]] = Inr s \<and> is_matrix 4 1 s \<and>
       column s 0 = [7, 11, 5, 7]"
proof -
  have h: "is_matrix 4 1 [[1], [2], [3], [4 :: real]]" by (simp add: is_matrix_def)
  show ?thesis
    using propagate_closed_form [OF h, of 1 1 2 "\<lambda>j i. real j"] by simp
qed

section \<open>Properties of the estimate\<close>

lemma np_mean_Fin: "xs \<noteq> [] \<Longrightarrow> np_mean xs = Fin (sum_list xs / real (length xs))"
  by (simp add: np_mean_def)

text \<open>
  Claim C4. For a non-empty population, the estimate is, component by component, the
  sum of the particles' values divided by their number, and the estimated box is the
  rectangle of the selected region's width \<open>w\<close> and height \<open>h\<close> centred at the
  estimated \<open>(x, y)\<close>.
\<close>

theorem mmse_estimate_is_mean:
  assumes "is_matrix 4 n state" and "0 < n"
  shows "\<exists>est. compute_MMSE_estimate (roi_height (r0, r1, w, h)) (roi_width (r0, r1, w, h)) state =
               Inr (map Fin est,
                    map Fin [est ! 0 - real_of_int w / 2, est ! 1 - real_of_int h / 2,
                             est ! 0 + real_of_int w / 2, est ! 1 + real_of_int h / 2])
             \<and> length est = 4
             \<and> (\<forall>j<4. est ! j = (\<Sum>i = 0..<n. state ! j ! i) / real n)"
proof -
  from assms(1) obtain a b c d where
    m: "state = [a, b, c, d]" and
    l: "length a = n" "length b = n" "length c = n" "length d = n"
    unfolding is_matrix_4 by blast
  have ne: "a \<noteq> []" "b \<noteq> []" "c \<noteq> []" "d \<noteq> []"
    using l assms(2) by auto
  let ?est = "[sum_list a / real n, sum_list b / real n, sum_list c / real n, sum_list d / real n]"
  have "compute_MMSE_estimate (roi_height (r0, r1, w, h)) (roi_width (r0, r1, w, h)) state =
          Inr (map Fin ?est,
               map Fin [?est ! 0 - real_of_int w / 2, ?est ! 1 - real_of_int h / 2,
                        ?est ! 0 + real_of_int w / 2, ?est ! 1 + real_of_int h / 2])"
    using ne l by (simp add: compute_MMSE_estimate_def m np_mean_Fin np_sub_def)
  moreover have "\<forall>j<4. ?est ! j = (\<Sum>i = 0..<n. state ! j ! i) / real n"
  proof (intro allI impI)
    fix j :: nat assume "j < 4"
    then consider "j = 0" | "j = 1" | "j = 2" | "j = 3" by linarith
    then show "?est ! j = (\<Sum>i = 0..<n. state ! j ! i) / real n"
      using l by cases (simp_all add: m sum_list_sum_nth)
  qed
  ultimately show ?thesis by (intro exI [of _ ?est]) simp
qed

theorem mmse_estimate_is_mean_witness:
  "\<exists>est. compute_MMSE_estimate 4 2 [[1, 3], [2, 6], [0, 0], [1, 1]] =
           Inr (map Fin est, map Fin [0, 3, 4, 5])
         \<and> est ! 0 = 2 \<and> est ! 1 = 4 \<and> est ! 2 = 0 \<and> est ! 3 = 1"
proof -
  have h: "is_matrix 4 2 [[1, 3], [2, 6], [0, 0], [1, 1 :: real]]" by (simp add: is_matrix_def)
  have n: "(0::nat) < 2" by simp
  from mmse_estimate_is_mean [OF h n, of 0 0 4 2] obtain est where
    c: "compute_MMSE_estimate (roi_height (0, 0, 4, 2)) (roi_width (0, 0, 4, 2))
          [[1, 3], [2, 6], [0, 0], [1, 1]] =
        Inr (map Fin est,
             map Fin [est ! 0 - real_of_int 4 / 2, est ! 1 - real_of_int 2 / 2,
                      est ! 0 + real_of_int 4 / 2, est ! 1 + real_of_int 2 / 2])"
    and e: "\<forall>j<4. est ! j = (\<Sum>i = 0..<2. [[1, 3], [2, 6], [0, 0], [1, 1]] ! j ! i) / real 2"
    by blast
  have s2: "\<And>f :: nat \<Rightarrow> real. (\<Sum>i = 0..<2. f i) = f 0 + f 1"
    by (simp add: numeral_2_eq_2)
  have e0: "est ! 0 = 2" using e [rule_format, of 0] by (simp add: s2)
  have e1: "est ! 1 = 4" using e [rule_format, of 1] by (simp add: s2)
  have e2: "est ! 2 = 0" using e [rule_format, of 2] by (simp add: s2)
  have e3: "est ! 3 = 1" using e [rule_format, of 3] by (simp add: s2)
  show ?thesis
    using c e0 e1 e2 e3 by (intro exI [of _ est]) simp
qed

section \<open>Properties of resampling\<close>

lemma np_add_assoc: "np_add (np_add x y) z = np_add x (np_add y z)"
  by (cases x; cases y; cases z) simp_all

lemma np_add_zero_left: "np_add (Fin 0) x = x"
  by (cases x) simp_all

lemma length_cumsum_from: "length (cumsum_from acc xs) = length xs"
  by (induction xs arbitrary: acc) simp_all

lemma cumsum_from_nth:
  "k < length xs \<Longrightarrow> cumsum_from acc xs ! k = np_add acc (np_sum (take (Suc k) xs))"
proof (induction xs arbitrary: acc k)
  case Nil
  then show ?case by simp
next
  case (Cons x xs)
  show ?case
  proof (cases k)
    case 0
    then show ?thesis by (cases "np_add acc x") (simp_all add: np_add_assoc [symmetric])
  next
    case (Suc j)
    with Cons show ?thesis by (simp add: np_add_assoc)
  qed
qed

lemma np_cumsum_nth: "k < length xs \<Longrightarrow> np_cumsum xs ! k = np_sum (take (Suc k) xs)"
  by (simp add: np_cumsum_def cumsum_from_nth np_add_zero_left)

lemma length_np_cumsum: "length (np_cumsum xs) = length xs"
  by (simp add: np_cumsum_def length_cumsum_from)

lemma filter_upt_hd:
  "filter P [0..<n] = k # rest \<Longrightarrow> k < n \<and> P k \<and> (\<forall>j<k. \<not> P j)"
proof (induction n arbitrary: rest)
  case 0
  then show ?case by simp
next
  case (Suc n)
  show ?case
  proof (cases "filter P [0..<n]")
    case Nil
    hence no: "\<forall>j<n. \<not> P j" by (auto simp: filter_empty_conv)
    from Suc.prems Nil have "P n" "k = n" by (auto split: if_splits)
    with no show ?thesis by simp
  next
    case (Cons k' r')
    with Suc.prems have "k = k'" by simp
    with Cons have "filter P [0..<n] = k # r'" by simp
    from Suc.IH [OF this] show ?thesis by auto
  qed
qed

lemma select_index_cases:
  "(select_index u cs < length cs \<and> np_le (Fin u) (cs ! select_index u cs)
      \<and> (\<forall>j. j < select_index u cs \<longrightarrow> \<not> np_le (Fin u) (cs ! j)))
   \<or> (select_index u cs = 0 \<and> (\<forall>j<length cs. \<not> np_le (Fin u) (cs ! j)))"
proof (cases "filter (\<lambda>k. np_le (Fin u) (cs ! k)) [0..<length cs]")
  case Nil
  hence "\<forall>j<length cs. \<not> np_le (Fin u) (cs ! j)" by (auto simp: filter_empty_conv)
  with Nil show ?thesis by (simp add: select_index_def)
next
  case (Cons k rest)
  from filter_upt_hd [OF Cons] Cons show ?thesis by (simp add: select_index_def)
qed

lemma select_index_less: "0 < length cs \<Longrightarrow> select_index u cs < length cs"
  using select_index_cases [of u cs] by auto

lemma ncols_matrix: "is_matrix r n m \<Longrightarrow> 0 < r \<Longrightarrow> ncols m = n"
  by (cases m) (auto simp: is_matrix_def ncols_def)

lemma set_column_matrix:
  assumes "is_matrix r n m" "0 < r" "i < n" "length c = r"
  shows "\<exists>s. set_column m i c = Inr s \<and> is_matrix r n s
             \<and> (\<forall>j<n. column s j = (if j = i then c else column m j))"
proof -
  let ?s = "map2 (\<lambda>r v. r[i := v]) m c"
  have lm: "length m = r" and rows: "\<forall>row\<in>set m. length row = n"
    using assms(1) by (auto simp: is_matrix_def list_all_iff)
  have 1: "set_column m i c = Inr ?s"
    using assms lm by (simp add: set_column_def ncols_matrix)
  have 2: "is_matrix r n ?s"
    using lm rows assms(4) by (auto simp: is_matrix_def list_all_iff elim!: in_set_zipE)
  have 3: "\<forall>j<n. column ?s j = (if j = i then c else column m j)"
  proof (intro allI impI)
    fix j assume j: "j < n"
    show "column ?s j = (if j = i then c else column m j)"
    proof (rule nth_equalityI)
      show "length (column ?s j) = length (if j = i then c else column m j)"
        using lm assms(4) by (simp add: column_def)
    next
      fix t assume "t < length (column ?s j)"
      hence t: "t < r" using lm assms(4) by (simp add: column_def)
      hence "length (m ! t) = n" using rows lm by simp
      thus "column ?s j ! t = (if j = i then c else column m j) ! t"
        using t lm assms(3,4) j by (simp add: column_def)
    qed
  qed
  from 1 2 3 show ?thesis by blast
qed

lemma resample_loop_correct:
  assumes "is_matrix r n prior" "0 < r" "length cs = n"
  shows "is_matrix r n cur \<Longrightarrow> \<forall>i\<in>set idx. i < n \<Longrightarrow> distinct idx \<Longrightarrow>
         \<exists>s. resample_loop prior cs u idx cur = Inr s \<and> is_matrix r n s
            \<and> (\<forall>i<n. column s i =
                  (if i \<in> set idx then column prior (select_index (u i) cs) else column cur i))"
proof (induction idx arbitrary: cur)
  case Nil
  then show ?case by simp
next
  case (Cons i rest)
  have i: "i < n" using Cons.prems(2) by simp
  let ?k = "select_index (u i) cs"
  have k: "?k < n" using select_index_less [of cs "u i"] assms(3) i by simp
  have g: "get_column prior ?k = Inr (column prior ?k)"
    using k assms(1,2) by (simp add: get_column_def ncols_matrix)
  have lc: "length (column prior ?k) = r"
    using assms(1) by (simp add: column_def is_matrix_def)
  from set_column_matrix [OF Cons.prems(1) assms(2) i lc] obtain s1 where
    s1: "set_column cur i (column prior ?k) = Inr s1" "is_matrix r n s1"
        "\<forall>j<n. column s1 j = (if j = i then column prior ?k else column cur j)"
    by blast
  from Cons.IH [OF s1(2)] Cons.prems(2,3) obtain s where
    s: "resample_loop prior cs u rest s1 = Inr s" "is_matrix r n s"
       "\<forall>j<n. column s j = (if j \<in> set rest then column prior (select_index (u j) cs) else column s1 j)"
    by auto
  have "resample_loop prior cs u (i # rest) cur = Inr s"
    by (simp add: g s1(1) s(1))
  moreover have "\<forall>j<n. column s j =
      (if j \<in> set (i # rest) then column prior (select_index (u j) cs) else column cur j)"
    using s(3) s1(3) Cons.prems(3) by auto
  ultimately show ?case using s(2) by blast
qed

text \<open>
  Claim C3. For a population of \<open>n\<close> particles with \<open>n\<close> weights, resampling returns a
  population of the same shape. With \<open>u i\<close> the draw of slot \<open>i\<close>, the state in slot \<open>i\<close>
  is the state that some particle \<open>k\<close> had before resampling, where \<open>k\<close> is the smallest
  index whose cumulative weight (the sum of the weights up to \<open>k\<close>) is at least
  \<open>u i\<close>, or \<open>k = 0\<close> when no cumulative weight is.
\<close>

theorem resample_correct:
  assumes "is_matrix 4 n state" and "length betas = n"
  shows "\<exists>s. resample_particles n state betas u = Inr s \<and> is_matrix 4 n s \<and>
     (\<forall>i<n. \<exists>k<n. column s i = column state k \<and>
         ((np_le (Fin (u i)) (np_sum (take (Suc k) betas))
             \<and> (\<forall>j<k. \<not> np_le (Fin (u i)) (np_sum (take (Suc j) betas))))
          \<or> (k = 0 \<and> (\<forall>j<n. \<not> np_le (Fin (u i)) (np_sum (take (Suc j) betas))))))"
proof -
  let ?cs = "np_cumsum betas"
  have lcs: "length ?cs = n" using assms(2) by (simp add: length_np_cumsum)
  have r: "(0::nat) < 4" by simp
  from resample_loop_correct [OF assms(1) r lcs assms(1), of "[0..<n]" u] obtain s where
    s: "resample_loop state ?cs u [0..<n] state = Inr s" "is_matrix 4 n s"
       "\<forall>i<n. column s i = column state (select_index (u i) ?cs)"
    by auto
  have "\<forall>i<n. \<exists>k<n. column s i = column state k \<and>
         ((np_le (Fin (u i)) (np_sum (take (Suc k) betas))
             \<and> (\<forall>j<k. \<not> np_le (Fin (u i)) (np_sum (take (Suc j) betas))))
          \<or> (k = 0 \<and> (\<forall>j<n. \<not> np_le (Fin (u i)) (np_sum (take (Suc j) betas)))))"
  proof (intro allI impI)
    fix i assume i: "i < n"
    let ?k = "select_index (u i) ?cs"
    have k: "?k < n" using select_index_less [of ?cs "u i"] lcs i by simp
    have nth: "\<And>j. j < n \<Longrightarrow> ?cs ! j = np_sum (take (Suc j) betas)"
      using assms(2) by (simp add: np_cumsum_nth)
    have "(np_le (Fin (u i)) (np_sum (take (Suc ?k) betas))
             \<and> (\<forall>j<?k. \<not> np_le (Fin (u i)) (np_sum (take (Suc j) betas))))
          \<or> (?k = 0 \<and> (\<forall>j<n. \<not> np_le (Fin (u i)) (np_sum (take (Suc j) betas))))"
      using select_index_cases [of "u i" ?cs] k nth lcs by auto
    with k s(3) i show "\<exists>k<n. column s i = column state k \<and>
         ((np_le (Fin (u i)) (np_sum (take (Suc k) betas))
             \<and> (\<forall>j<k. \<not> np_le (Fin (u i)) (np_sum (take (Suc j) betas))))
          \<or> (k = 0 \<and> (\<forall>j<n. \<not> np_le (Fin (u i)) (np_sum (take (Suc j) betas)))))"
      by blast
  qed
  with s(1,2) show ?thesis by (auto simp: resample_particles_def)
qed

theorem resample_correct_witness:
  "\<exists>s. resample_particles 2 [[1, 2], [3, 4], [5, 6], [7, 8]] [Fin (1 / 4), Fin (3 / 4)] (\<lambda>i. 1 / 2) = Inr s
       \<and> is_matrix 4 2 s \<and> column s 0 = [2, 4, 6, 8] \<and> column s 1 = [2, 4, 6, 8]"
proof -
  let ?st = "[[1, 2], [3, 4], [5, 6], [7, 8 :: real]]"
  let ?b = "[Fin (1 / 4), Fin (3 / 4)]"
  let ?C = "\<lambda>k. (np_le (Fin (1 / 2)) (np_sum (take (Suc k) ?b))
             \<and> (\<forall>j<k. \<not> np_le (Fin (1 / 2)) (np_sum (take (Suc j) ?b))))
          \<or> (k = 0 \<and> (\<forall>j<2. \<not> np_le (Fin (1 / 2)) (np_sum (take (Suc j) ?b))))"
  have h: "is_matrix 4 2 ?st" by (simp add: is_matrix_def)
  have l: "length ?b = 2" by simp
  have ex: "\<exists>s. resample_particles 2 ?st ?b (\<lambda>i. 1 / 2) = Inr s \<and> is_matrix 4 2 s
              \<and> (\<forall>i<2. \<exists>k<2. column s i = column ?st k \<and> ?C k)"
    by (rule resample_correct [OF h l])
  then obtain s where
    r: "resample_particles 2 ?st ?b (\<lambda>i. 1 / 2) = Inr s" and m: "is_matrix 4 2 s"
    and c: "\<forall>i<2. \<exists>k<2. column s i = column ?st k \<and> ?C k"
    apply (elim exE conjE)
    apply (rule that)
      apply assumption+
    done
  have not0: "\<not> ?C 0"
  proof
    assume "?C 0"
    hence all: "\<forall>j<2. \<not> np_le (Fin (1 / 2)) (np_sum (take (Suc j) ?b))" by simp
    have one: "(1::nat) < 2" by simp
    have "np_le (Fin (1 / 2)) (np_sum (take (Suc 1) ?b))" by simp
    with all [rule_format, OF one] show False by (rule notE)
  qed
  have pick: "column s i = column ?st 1" if i: "i < 2" for i
  proof -
    from c [rule_format, OF i] obtain k where
      k: "k < 2" "column s i = column ?st k" "?C k"
      apply (elim exE conjE)
      apply (rule that)
        apply assumption+
      done
    have "k \<noteq> 0"
    proof
      assume k0: "k = 0"
      from k(3) have "?C 0" unfolding k0 .
      with not0 show False by (rule notE)
    qed
    with k(1) have "k = 1" by linarith
    with k(2) show ?thesis by (simp only:)
  qed
  have c0: "column s 0 = [2, 4, 6, 8]" using pick [of 0] by (simp add: column_def)
  have c1: "column s 1 = [2, 4, 6, 8]" using pick [of 1] by (simp add: column_def)
  from r m c0 c1 show ?thesis by (intro exI [of _ s] conjI)
qed

section \<open>Properties of the weights\<close>

lemma np_sum_NaN: "NaN \<in> set xs \<Longrightarrow> np_sum xs = NaN"
proof (induction xs)
  case Nil
  then show ?case by simp
next
  case (Cons x xs)
  show ?case
  proof (cases "x = NaN")
    case True
    then show ?thesis by simp
  next
    case False
    with Cons have "np_sum xs = NaN" by simp
    then show ?thesis by (cases x) simp_all
  qed
qed

lemma np_div_NaN: "np_div x NaN = NaN"
  by (cases x) simp_all

lemma norm_pdf_NaN: "norm_pdf NaN scale = NaN"
  by (simp add: norm_pdf_def)

lemma np_sum_replicate_zero: "np_sum (replicate n (Fin 0)) = Fin 0"
  by (induction n) simp_all

lemma normalize_hist_zero: "normalize_hist (replicate n (Fin 0)) = replicate n NaN"
  by (simp add: normalize_hist_def np_sum_replicate_zero)

lemma map2_np_mul_NaN: "length ys = n \<Longrightarrow> map2 np_mul (replicate n NaN) ys = replicate n NaN"
proof (induction n arbitrary: ys)
  case 0
  then show ?case by simp
next
  case (Suc n)
  then obtain y ys' where "ys = y # ys'" "length ys' = n" by (cases ys) auto
  with Suc.IH [of ys'] show ?case by simp
qed

lemma length_normalize_hist: "length (normalize_hist h) = length h"
  by (simp add: normalize_hist_def)

lemma hellinger_column_zero:
  assumes "0 < n" and "length target = n"
  shows "hellinger_column (replicate n (Fin 0)) target = Inr NaN"
proof -
  have "broadcast_mul (replicate n NaN) (normalize_hist target) = Inr (replicate n NaN)"
    using assms(2) by (simp add: broadcast_mul_def length_normalize_hist map2_np_mul_NaN)
  moreover have "np_sum (map np_sqrt (replicate n NaN)) = NaN"
    using assms(1) by (intro np_sum_NaN) simp
  ultimately show ?thesis
    by (simp add: hellinger_column_def normalize_hist_zero np_sub_def)
qed

lemma hellinger_column_total:
  "length h = length target \<Longrightarrow> \<exists>d. hellinger_column h target = Inr d"
  by (simp add: hellinger_column_def broadcast_mul_def length_normalize_hist)

lemma map_columns_total:
  "list_all (\<lambda>x. \<exists>y. f x = Inr y) xs \<Longrightarrow>
   \<exists>ys. map_columns f xs = Inr ys \<and> length ys = length xs \<and> (\<forall>i<length xs. f (xs ! i) = Inr (ys ! i))"
proof (induction xs)
  case Nil
  then show ?case by simp
next
  case (Cons x xs)
  then obtain y ys where y: "f x = Inr y" and ys: "map_columns f xs = Inr ys"
    "length ys = length xs" "\<forall>i<length xs. f (xs ! i) = Inr (ys ! i)" by auto
  have "\<forall>i<length (x # xs). f ((x # xs) ! i) = Inr ((y # ys) ! i)"
    using y ys(3) by (auto simp: nth_Cons split: nat.splits)
  with y ys show ?case by simp
qed

lemma betas_NaN:
  assumes d: "compute_hellinger_distance hs t = Inr d" and s: "sigma \<noteq> 0" and n: "NaN \<in> set d"
  shows "compute_particle_betas hs t sigma = Inr (replicate (length d) NaN)"
proof -
  let ?v = "map (\<lambda>x. norm_pdf x (1 / sigma)) d"
  have "NaN \<in> set ?v" using n by (auto simp: image_iff norm_pdf_NaN intro!: bexI [of _ NaN])
  hence "np_sum ?v = NaN" by (rule np_sum_NaN)
  hence "map (\<lambda>v. np_div v (np_sum ?v)) ?v = replicate (length d) NaN"
    by (simp add: np_div_NaN map_replicate_const)
  thus ?thesis using d s by (simp add: compute_particle_betas_def)
qed













section \<open>Properties of cropping\<close>

lemma map_columns_nth:
  "map_columns f xs = Inr ys \<Longrightarrow> length ys = length xs \<and> (\<forall>j<length xs. f (xs ! j) = Inr (ys ! j))"
proof (induction xs arbitrary: ys)
  case Nil
  then show ?case by simp
next
  case (Cons x xs)
  from Cons.prems obtain y zs where y: "f x = Inr y" and zs: "map_columns f xs = Inr zs"
    and ys: "ys = y # zs" by (auto split: sum.splits)
  from Cons.IH [OF zs] have "length zs = length xs" "\<forall>j<length xs. f (xs ! j) = Inr (zs ! j)"
    by simp_all
  with y ys show ?case by (auto simp: nth_Cons split: nat.splits)
qed

lemma np_histogram_empty: "0 < bins \<Longrightarrow> np_histogram [] bins = Inr (replicate bins 0)"
  by (simp add: np_histogram_def map_replicate_const)

lemma particle_histogram_length:
  "particle_histogram img n_bins height width x y = Inr h \<Longrightarrow> length h = n_bins \<and> 0 < n_bins"
  by (auto simp: particle_histogram_def np_histogram_def split: sum.splits if_splits)

lemma zero_histogram_nan:
  assumes u: "update_particles_histograms img n_bins height width n state = Inr hs"
    and i: "i < n"
    and empty: "concat (crop_box img (particle_box height width (state ! 0 ! i) (state ! 1 ! i))) = []"
    and t: "length target = n_bins" and s: "sigma \<noteq> 0"
  shows "hs ! i = replicate n_bins (Fin 0)
       \<and> (\<exists>d. compute_hellinger_distance hs target = Inr d \<and> d ! i = NaN)
       \<and> compute_particle_betas hs target sigma = Inr (replicate n NaN)"
proof -
  let ?f = "\<lambda>i. if 1 < length state \<and> i < ncols state
            then particle_histogram img n_bins height width (state ! 0 ! i) (state ! 1 ! i)
            else Inl IndexError"
  from u have mc: "map_columns ?f [0..<n] = Inr hs"
    by (simp add: update_particles_histograms_def)
  note mn = map_columns_nth [OF mc]
  from mn have len: "length hs = n" by simp
  from mn have each: "\<forall>j<length [0..<n]. ?f ([0..<n] ! j) = Inr (hs ! j)" by (rule conjunct2)
  have ph: "\<forall>j<n. particle_histogram img n_bins height width (state ! 0 ! j) (state ! 1 ! j) = Inr (hs ! j)"
  proof (intro allI impI)
    fix j assume j: "j < n"
    have nj: "[0..<n] ! j = j" using j by simp
    from each j have "?f ([0..<n] ! j) = Inr (hs ! j)" by simp
    hence "?f j = Inr (hs ! j)" unfolding nj .
    thus "particle_histogram img n_bins height width (state ! 0 ! j) (state ! 1 ! j) = Inr (hs ! j)"
      by (simp split: if_splits)
  qed
  have lens: "\<forall>j<n. length (hs ! j) = n_bins" and bins: "0 < n_bins"
    using ph i particle_histogram_length by blast+
  have "particle_histogram img n_bins height width (state ! 0 ! i) (state ! 1 ! i) =
          Inr (replicate n_bins (Fin 0))"
    unfolding particle_histogram_def empty using bins by (simp add: np_histogram_empty)
  with ph [rule_format, OF i] have zero: "hs ! i = replicate n_bins (Fin 0)" by simp
  have tot: "list_all (\<lambda>h. \<exists>d. hellinger_column h target = Inr d) hs"
    using lens len t by (auto simp: list_all_length intro!: hellinger_column_total)
  from map_columns_total [OF tot] obtain d where d:
    "compute_hellinger_distance hs target = Inr d" "length d = length hs"
    "\<forall>j<length hs. hellinger_column (hs ! j) target = Inr (d ! j)"
    unfolding compute_hellinger_distance_def by blast
  have "hellinger_column (hs ! i) target = Inr NaN"
    unfolding zero using bins t by (rule hellinger_column_zero)
  with d(3) i len have di: "d ! i = NaN" by auto
  hence "NaN \<in> set d" using d(2) len i by (metis nth_mem)
  from betas_NaN [OF d(1) s this] d(2) len
  have "compute_particle_betas hs target sigma = Inr (replicate n NaN)" by simp
  with zero d(1) di show ?thesis by blast
qed

lemma update_histograms_total:
  assumes "is_matrix 4 n state" and "0 < n_bins"
  shows "\<exists>hs. update_particles_histograms img n_bins height width n state = Inr hs"
proof -
  let ?f = "\<lambda>i. if 1 < length state \<and> i < ncols state
            then particle_histogram img n_bins height width (state ! 0 ! i) (state ! 1 ! i)
            else Inl IndexError"
  have r: "(0::nat) < 4" by simp
  have nc: "ncols state = n" using assms(1) r by (rule ncols_matrix)
  have len: "length state = 4" using assms(1) by (simp add: is_matrix_def)
  have "list_all (\<lambda>i. \<exists>y. ?f i = Inr y) [0..<n]"
    using assms(2) by (simp add: list_all_iff nc len particle_histogram_def np_histogram_def)
  from map_columns_total [OF this] show ?thesis
    unfolding update_particles_histograms_def by blast
qed

text \<open>
  Claim C2, as the code has it. For a population of \<open>n\<close> particles and a positive bin
  count, the histogram update returns without raising; when the crop of particle \<open>i\<close>
  has zero area, the histogram of that particle is all-zero, its Hellinger distance
  is nan and the likelihood step returns the weight nan for every particle.
\<close>

theorem zero_area_crop:
  assumes m: "is_matrix 4 n state" and b: "0 < n_bins" and i: "i < n"
    and empty: "concat (crop_box img (particle_box height width (state ! 0 ! i) (state ! 1 ! i))) = []"
    and t: "length target = n_bins" and s: "sigma \<noteq> 0"
  shows "\<exists>hs. update_particles_histograms img n_bins height width n state = Inr hs
            \<and> hs ! i = replicate n_bins (Fin 0)
            \<and> (\<exists>d. compute_hellinger_distance hs target = Inr d \<and> d ! i = NaN)
            \<and> compute_particle_betas hs target sigma = Inr (replicate n NaN)"
proof -
  from update_histograms_total [OF m b] obtain hs where
    u: "update_particles_histograms img n_bins height width n state = Inr hs" by blast
  from zero_histogram_nan [OF u i empty t s] u show ?thesis by (intro exI [of _ hs] conjI) simp_all
qed

theorem zero_area_crop_witness:
  "update_particles_histograms [[5]] 2 1 1 1 [[10], [10], [0], [0]] = Inr [[Fin 0, Fin 0]]
   \<and> compute_particle_betas [[Fin 0, Fin 0]] [Fin 1, Fin 0] 20 = Inr [NaN]"
proof -
  have m: "is_matrix 4 1 [[10], [10], [0], [0 :: real]]" by (simp add: is_matrix_def)
  have b: "(0::nat) < 2" by simp
  have u: "update_particles_histograms [[5]] 2 1 1 1 [[10], [10], [0], [0]] = Inr [[Fin 0, Fin 0]]"
    by (simp add: update_particles_histograms_def ncols_def particle_histogram_def
        particle_box_def py_slice_def slice_index_def py_int_def np_histogram_def numeral_2_eq_2)
  have e: "concat (crop_box [[5]] (particle_box 1 1 ([[10], [10], [0], [0]] ! 0 ! 0)
             ([[10], [10], [0], [0]] ! 1 ! 0))) = []"
    by (simp add: particle_box_def py_slice_def slice_index_def py_int_def)
  have i: "(0::nat) < 1" by simp
  have t: "length [Fin 1, Fin 0] = (2::nat)" by simp
  have s: "(20::real) \<noteq> 0" by simp
  from zero_area_crop [OF m b i e t s] obtain hs where
    h: "update_particles_histograms [[5]] 2 1 1 1 [[10], [10], [0], [0]] = Inr hs"
       "compute_particle_betas hs [Fin 1, Fin 0] 20 = Inr (replicate 1 NaN)"
    apply (elim exE conjE)
    apply (rule that)
     apply assumption+
    done
  from h(1) u have "hs = [[Fin 0, Fin 0]]" by simp
  with h(2) have "compute_particle_betas [[Fin 0, Fin 0]] [Fin 1, Fin 0] 20 = Inr [NaN]" by simp
  with u show ?thesis by (intro conjI)
qed

text \<open>
  Claim C2 as stated fails: for a particle outside a one-pixel frame the histogram is
  all-zero and the distance is nan, not the maximal distance 1.
\<close>

theorem zero_area_distance_nan:
  "update_particles_histograms [[5]] 2 1 1 1 [[10], [10], [0], [0]] = Inr [[Fin 0, Fin 0]]
   \<and> compute_hellinger_distance [[Fin 0, Fin 0]] [Fin 1, Fin 0] = Inr [NaN]
   \<and> compute_hellinger_distance [[Fin 0, Fin 0]] [Fin 1, Fin 0] \<noteq> Inr [Fin 1]"
  by (simp add: update_particles_histograms_def ncols_def particle_histogram_def
        particle_box_def py_slice_def slice_index_def py_int_def np_histogram_def numeral_2_eq_2
        compute_hellinger_distance_def hellinger_column_def broadcast_mul_def normalize_hist_def
        np_sub_def)

lemma take_drop_nth: "take (b - a) (drop a xs) = map (\<lambda>k. xs ! k) [a..<min b (length xs)]"
proof (rule nth_equalityI)
  show "length (take (b - a) (drop a xs)) = length (map (\<lambda>k. xs ! k) [a..<min b (length xs)])"
    by auto
next
  fix i assume "i < length (take (b - a) (drop a xs))"
  hence "i < b - a" "a + i < length xs" by auto
  thus "take (b - a) (drop a xs) ! i = map (\<lambda>k. xs ! k) [a..<min b (length xs)] ! i"
    by simp
qed

lemma py_slice_nonneg:
  assumes "0 \<le> a" and "0 \<le> b"
  shows "py_slice xs a b = map (\<lambda>k. xs ! k) [nat a..<min (nat b) (length xs)]"
proof -
  let ?n = "length xs"
  have "py_slice xs a b = take (min (nat b) ?n - min (nat a) ?n) (drop (min (nat a) ?n) xs)"
    using assms by (simp add: py_slice_def slice_index_def Let_def)
  also have "\<dots> = map (\<lambda>k. xs ! k) [min (nat a) ?n..<min (min (nat b) ?n) ?n]"
    by (rule take_drop_nth)
  also have "\<dots> = map (\<lambda>k. xs ! k) [nat a..<min (nat b) ?n]"
    by (cases "nat a \<le> ?n") (simp_all add: min_def)
  finally show ?thesis .
qed

lemma py_int_mono: "x \<le> y \<Longrightarrow> py_int x \<le> py_int y"
proof -
  assume xy: "x \<le> y"
  consider "0 \<le> x" | "x < 0" "0 \<le> y" | "y < 0" by linarith
  then show ?thesis
  proof cases
    case 1
    with xy show ?thesis by (simp add: py_int_def floor_mono)
  next
    case 2
    have a: "\<lceil>x\<rceil> \<le> 0" using 2(1) by (simp add: ceiling_le_iff)
    have b: "0 \<le> \<lfloor>y\<rfloor>" using 2(2) by simp
    have px: "py_int x = \<lceil>x\<rceil>" using 2(1) by (simp add: py_int_def)
    have py: "py_int y = \<lfloor>y\<rfloor>" using 2(2) by (simp add: py_int_def)
    from a b show ?thesis unfolding px py by linarith
  next
    case 3
    with xy show ?thesis by (simp add: py_int_def ceiling_mono)
  qed
qed

lemma crop_box_nonneg:
  assumes rect: "list_all (\<lambda>row. length row = w) img"
    and "0 \<le> py_int b0" "0 \<le> py_int b1" "0 \<le> py_int b2" "0 \<le> py_int b3"
  shows "crop_box img (b0, b1, b2, b3) = clipped_crop img (b0, b1, b2, b3)"
proof -
  let ?H = "length img"
  have nc: "img \<noteq> [] \<Longrightarrow> ncols img = w"
    using rect by (cases img) (simp_all add: ncols_def)
  have rows: "py_slice img (py_int b1) (py_int b3) =
              map (\<lambda>r. img ! r) [nat (py_int b1)..<min (nat (py_int b3)) ?H]"
    using assms(3,5) by (rule py_slice_nonneg)
  have cols: "\<And>r. r < ?H \<Longrightarrow> py_slice (img ! r) (py_int b0) (py_int b2) =
              map (\<lambda>c. img ! r ! c) [nat (py_int b0)..<min (nat (py_int b2)) w]"
  proof -
    fix r assume r: "r < ?H"
    hence "length (img ! r) = w" using rect by (simp add: list_all_length)
    with py_slice_nonneg [OF assms(2,4), of "img ! r"] show
      "py_slice (img ! r) (py_int b0) (py_int b2) =
       map (\<lambda>c. img ! r ! c) [nat (py_int b0)..<min (nat (py_int b2)) w]" by simp
  qed
  have l: "crop_box img (b0, b1, b2, b3) =
        map (\<lambda>r. map (\<lambda>c. img ! r ! c) [nat (py_int b0)..<min (nat (py_int b2)) w])
          [nat (py_int b1)..<min (nat (py_int b3)) ?H]"
    using cols by (simp add: rows)
  show ?thesis
  proof (cases "img = []")
    case True
    then show ?thesis by (simp add: box_intersection_def py_slice_def)
  next
    case False
    have e1: "nat (max 0 (py_int b0)) = nat (py_int b0)" "nat (max 0 (py_int b1)) = nat (py_int b1)"
      using assms(2,3) by simp_all
    have e2: "nat (min (int w) (py_int b2)) = min (nat (py_int b2)) w"
      "nat (min (int ?H) (py_int b3)) = min (nat (py_int b3)) ?H"
      using assms(4,5) by arith+
    show ?thesis
      unfolding l by (simp only: clipped_crop.simps box_intersection_def nc [OF False] e1 e2)
  qed
qed

text \<open>
  Claim C8, as the code has it. For a particle whose box has non-negative truncated
  left and top coordinates, the crop is the intersection of the box with the frame:
  the slice clips on the right and at the bottom.
\<close>

theorem crop_is_clipped_box:
  assumes "list_all (\<lambda>row. length row = w) img"
    and "0 \<le> height" and "0 \<le> width"
    and "0 \<le> py_int (x - real_of_int height / 2)" and "0 \<le> py_int (y - real_of_int width / 2)"
  shows "crop_box img (particle_box height width x y) = clipped_crop img (particle_box height width x y)"
proof -
  have "py_int (x - real_of_int height / 2) \<le> py_int (x + real_of_int height / 2)"
    using assms(2) by (intro py_int_mono) simp
  with assms(4) have x1: "0 \<le> py_int (x + real_of_int height / 2)" by simp
  have "py_int (y - real_of_int width / 2) \<le> py_int (y + real_of_int width / 2)"
    using assms(3) by (intro py_int_mono) simp
  with assms(5) have y1: "0 \<le> py_int (y + real_of_int width / 2)" by simp
  show ?thesis
    unfolding particle_box_def
    by (rule crop_box_nonneg [OF assms(1) assms(4) assms(5) x1 y1])
qed

theorem crop_is_clipped_box_witness:
  "crop_box [[1, 2], [3, 4]] (particle_box 2 2 2 1) = [[2], [4]]
   \<and> clipped_crop [[1, 2], [3, 4]] (particle_box 2 2 2 1) = [[2], [4]]"
proof -
  have r: "list_all (\<lambda>row. length row = 2) [[1, 2], [3, 4 :: 8 word]]" by simp
  have c: "clipped_crop [[1, 2], [3, 4]] (particle_box 2 2 2 1) = [[2], [4]]"
    by (simp add: particle_box_def box_intersection_def ncols_def py_int_def upt_rec)
  from crop_is_clipped_box [OF r, of 2 2 2 1] c show ?thesis
    by (simp add: py_int_def)
qed

text \<open>
  Claim C8 as stated fails for a negative coordinate: a negative slice bound counts
  from the far edge. On a frame of one row and three columns, the box from column -2
  to column 2 crops column 1 alone, while the intersection is columns 0 and 1.
\<close>

theorem crop_negative_start_counterexample:
  "crop_box [[1, 2, 3]] (particle_box 4 2 0 1) = [[2]]
   \<and> clipped_crop [[1, 2, 3]] (particle_box 4 2 0 1) = [[1, 2]]"
  by (simp add: particle_box_def box_intersection_def ncols_def py_int_def py_slice_def
      slice_index_def upt_rec)

section \<open>Weights of a frame\<close>











end
